theory Spec2Isabelle
  imports Complex_Main "HOL-Library.Sublist"
begin

section \<open>Strings\<close>

text \<open>
  A JavaScript string is modelled as a \<^typ>\<open>string\<close>: one \<^typ>\<open>char\<close> stands for one
  UTF-16 code unit, restricted to the code units below 256. \<open>length\<close> is the source's
  \<^verbatim>\<open>.length\<close>.
\<close>

definition newline :: string where
  "newline = [CHR 0x0A]"

text \<open>
  The upper case of one code unit where it is one code unit again: the letters a to z,
  and U+00E0 to U+00FE without the division sign U+00F7, go 32 down. This is also the case
  folding of the regular expression flag \<^verbatim>\<open>i\<close>, which keeps a character whose upper
  case is more than one code unit.
\<close>

definition upper_char :: "char \<Rightarrow> char" where
  "upper_char c =
     (let n = (of_char c :: nat)
      in if (97 \<le> n \<and> n \<le> 122) \<or> (224 \<le> n \<and> n \<le> 254 \<and> n \<noteq> 247)
         then char_of (n - 32) else c)"

text \<open>
  \<^verbatim>\<open>String.prototype.toUpperCase\<close>: the sharp s U+00DF becomes SS, every other code
  unit its \<open>upper_char\<close>. The micro sign U+00B5 and U+00FF have their upper case outside
  the modelled code units; the model's strings are taken without these two.
\<close>

definition toUpperCase :: "string \<Rightarrow> string" where
  "toUpperCase s = concat (map (\<lambda>c. if c = CHR 0xDF then ''SS'' else [upper_char c]) s)"

text \<open>
  The white space of \<^verbatim>\<open>String.prototype.trim\<close> and of the regular expression class
  \<^verbatim>\<open>\s\<close> among the modelled code units: TAB, LF, VT, FF, CR, SPACE and NBSP.
\<close>

definition is_space :: "char \<Rightarrow> bool" where
  "is_space c = ((of_char c :: nat) \<in> {9, 10, 11, 12, 13, 32, 160})"

definition trim :: "string \<Rightarrow> string" where
  "trim s = rev (dropWhile is_space (rev (dropWhile is_space s)))"

text \<open>\<^verbatim>\<open>s.includes(t)\<close>: \<open>t\<close> occurs in \<open>s\<close> as a contiguous block.\<close>

fun includes_str :: "string \<Rightarrow> string \<Rightarrow> bool" where
  "includes_str [] t = (t = [])"
| "includes_str (c # s) t = (take (length t) (c # s) = t \<or> includes_str s t)"

section \<open>Data model (types.ts)\<close>

datatype ModelProvider = OpenAI | DeepSeek | Gemini

datatype Sender = SUser | SAi | SSystem

record Message =
  msg_id :: string
  msg_text :: string
  sender :: Sender
  authorId :: "string option"
  authorName :: "string option"
  timestamp :: nat
  isError :: "bool option"

datatype Role = RUser | RAssistant | RModel

record Turn =
  role :: Role
  content :: string

text \<open>\<^verbatim>\<open>`${n}`\<close> for a non-negative integer: its decimal digits.\<close>

fun show_nat :: "nat \<Rightarrow> string" where
  "show_nat n =
     (if n < 10 then [char_of (48 + n)] else show_nat (n div 10) @ [char_of (48 + n mod 10)])"

declare show_nat.simps [simp del]

definition provider_name :: "ModelProvider \<Rightarrow> string" where
  "provider_name p = (case p of OpenAI \<Rightarrow> ''openai'' | DeepSeek \<Rightarrow> ''deepseek'' | Gemini \<Rightarrow> ''gemini'')"


section \<open>History normalisation (aiService.ts, mapHistory)\<close>

definition MAX_HISTORY_MESSAGES :: nat where
  "MAX_HISTORY_MESSAGES = 40"

definition MAX_HISTORY_CHARS :: nat where
  "MAX_HISTORY_CHARS = 12000"

text \<open>\<^verbatim>\<open>xs.slice(-n)\<close>: the last \<open>n\<close> elements, all of them when there are fewer.\<close>

definition slice_last :: "nat \<Rightarrow> 'a list \<Rightarrow> 'a list" where
  "slice_last n xs = drop (length xs - n) xs"

text \<open>
  The backward loop over \<^verbatim>\<open>recent\<close>. The first argument is the part of \<^verbatim>\<open>recent\<close> not
  yet visited, most recent message first; \<open>totalChars\<close> and \<open>finalMessages\<close> are the loop's
  variables. \<^verbatim>\<open>break\<close> returns \<open>finalMessages\<close>; \<^verbatim>\<open>unshift\<close> is \<open>#\<close>.
\<close>

fun window_loop :: "Message list \<Rightarrow> nat \<Rightarrow> Message list \<Rightarrow> Message list" where
  "window_loop [] totalChars finalMessages = finalMessages"
| "window_loop (msg # rest) totalChars finalMessages =
     (if totalChars + length (msg_text msg) > MAX_HISTORY_CHARS \<and> finalMessages \<noteq> []
      then finalMessages
      else window_loop rest (totalChars + length (msg_text msg)) (msg # finalMessages))"

definition chatMessages :: "Message list \<Rightarrow> Message list" where
  "chatMessages history = filter (\<lambda>m. sender m \<noteq> SSystem) history"

text \<open>Step 1 of mapHistory: the value of \<^verbatim>\<open>finalMessages\<close> after the loop.\<close>

definition finalMessages :: "Message list \<Rightarrow> Message list" where
  "finalMessages history =
     (let recent = slice_last MAX_HISTORY_MESSAGES (chatMessages history)
      in window_loop (rev recent) 0 [])"

text \<open>\<^verbatim>\<open>msg.authorName || (msg.sender === 'user' ? 'User' : 'Assistant')\<close>: an absent and an
  empty name are both falsy.\<close>

definition authorLabel :: "Message \<Rightarrow> string" where
  "authorLabel msg =
     (case authorName msg of
        Some n \<Rightarrow> if n \<noteq> [] then n else (if sender msg = SUser then ''User'' else ''Assistant'')
      | None \<Rightarrow> (if sender msg = SUser then ''User'' else ''Assistant''))"

definition mapRole :: "ModelProvider \<Rightarrow> Message \<Rightarrow> Role" where
  "mapRole provider msg =
     (if provider = Gemini then (if sender msg = SUser then RUser else RModel)
      else (if sender msg = SUser then RUser else RAssistant))"

text \<open>Step 2: one message wrapped in its SOURCE and END tags.\<close>

definition mapMessage :: "ModelProvider \<Rightarrow> Message \<Rightarrow> Turn" where
  "mapMessage provider msg =
     \<lparr> role = mapRole provider msg,
       content = ''--- SOURCE: '' @ toUpperCase (authorLabel msg) @ '' ---'' @ newline
                 @ trim (msg_text msg) @ newline
                 @ ''--- END '' @ toUpperCase (authorLabel msg) @ '' ---'' \<rparr>"

text \<open>
  One iteration of the \<^verbatim>\<open>forEach\<close> that glues neighbouring turns of one role: the
  accumulator is \<^verbatim>\<open>strictHistory\<close> (\<^verbatim>\<open>geminiHistory\<close> in step 4), \<^verbatim>\<open>push\<close> appends at
  the end.
\<close>

definition merge_step :: "Turn list \<Rightarrow> Turn \<Rightarrow> Turn list" where
  "merge_step strictHistory m =
     (if strictHistory \<noteq> [] \<and> role (last strictHistory) = role m
      then butlast strictHistory
             @ [(last strictHistory)\<lparr> content := content (last strictHistory) @ newline @ newline @ content m \<rparr>]
      else strictHistory @ [\<lparr> role = role m, content = content m \<rparr>])"

definition mergeRuns :: "Turn list \<Rightarrow> Turn list" where
  "mergeRuns mapped = foldl merge_step [] mapped"

text \<open>Rule 1: the history must begin with a user turn (\<^verbatim>\<open>shift\<close>, then \<^verbatim>\<open>unshift\<close>).\<close>

definition rule1 :: "Turn list \<Rightarrow> Turn list" where
  "rule1 strictHistory =
     (case strictHistory of
        [] \<Rightarrow> []
      | first # rest \<Rightarrow>
          if role first = RAssistant
          then \<lparr> role = RUser, content = ''[PREVIOUS CONTEXT]:'' @ newline @ content first \<rparr> # rest
          else strictHistory)"

text \<open>Rule 2: the history must end with a user turn (\<^verbatim>\<open>pop\<close>, then append to the new last
  turn), with the separate branch for a history of one assistant turn.\<close>

definition rule2 :: "Turn list \<Rightarrow> Turn list" where
  "rule2 strictHistory =
     (if length strictHistory > 1 \<and> role (last strictHistory) = RAssistant
      then (let lastAssistantTurn = last strictHistory;
                popped = butlast strictHistory
            in butlast popped
                 @ [(last popped)\<lparr> content := content (last popped) @ newline @ newline
                      @ ''[FOLLOW-UP RESPONSE]:'' @ newline @ content lastAssistantTurn \<rparr>])
      else if length strictHistory = 1 \<and> role (hd strictHistory) = RAssistant
      then [\<lparr> role = RUser,
              content = ''[DIALOGUE CONTEXT]:'' @ newline @ content (hd strictHistory) \<rparr>]
      else strictHistory)"

definition mapHistory :: "Message list \<Rightarrow> ModelProvider \<Rightarrow> Turn list" where
  "mapHistory history provider =
     (if history = [] then []
      else
        (let mapped = map (mapMessage provider) (finalMessages history)
         in if provider \<noteq> Gemini then rule2 (rule1 (mergeRuns mapped))
            else mergeRuns mapped))"

section \<open>Response cleaning (aiService.ts, cleanResponse)\<close>

text \<open>
  The two regular expressions are \<^verbatim>\<open>/^-+\s*SOURCE:.*?-+\s*$/gim\<close> and
  \<^verbatim>\<open>/^-+\s*END.*?-+\s*$/gim\<close>. With the flag \<^verbatim>\<open>m\<close>, \<^verbatim>\<open>^\<close> holds at the start of
  the input and after a line terminator, \<^verbatim>\<open>$\<close> at the end of the input and before a line
  terminator; \<^verbatim>\<open>.\<close> matches every character but a line terminator; \<^verbatim>\<open>\s\<close> matches
  white space, line terminators included. The functions below compute the length of the
  match that the backtracking matcher finds at a given position.
\<close>

definition is_line_terminator :: "char \<Rightarrow> bool" where
  "is_line_terminator c = (c = CHR 0x0A \<or> c = CHR 0x0D)"

definition is_hyphen :: "char \<Rightarrow> bool" where
  "is_hyphen c = (c = CHR ''-'')"

text \<open>The literal \<open>lit\<close> (in upper case) at the start of \<open>s\<close>, with the flag \<^verbatim>\<open>i\<close>.\<close>

fun prefix_ci :: "string \<Rightarrow> string \<Rightarrow> bool" where
  "prefix_ci [] s = True"
| "prefix_ci (l # ls) [] = False"
| "prefix_ci (l # ls) (c # s) = (upper_char c = l \<and> prefix_ci ls s)"

text \<open>
  The index of the last line terminator in a block of white space: the greedy \<^verbatim>\<open>\s*\<close>
  gives characters back until \<^verbatim>\<open>$\<close> holds.
\<close>

definition last_terminator :: "string \<Rightarrow> nat option" where
  "last_terminator ws =
     (let after = takeWhile (\<lambda>c. \<not> is_line_terminator c) (rev ws)
      in if length after = length ws then None else Some (length ws - length after - 1))"

text \<open>
  \<^verbatim>\<open>-+\s*$\<close> at the start of \<open>s\<close>: all the hyphens of the run (with fewer, the next
  character is a hyphen, and neither \<^verbatim>\<open>\s\<close> nor \<^verbatim>\<open>$\<close> accepts it), then the white
  space up to the end of the input, or else up to its last line terminator.
\<close>

definition tail_len :: "string \<Rightarrow> nat option" where
  "tail_len s =
     (let h = length (takeWhile is_hyphen s);
          r = dropWhile is_hyphen s;
          ws = takeWhile is_space r
      in if h = 0 then None
         else if dropWhile is_space r = [] then Some (h + length ws)
         else (case last_terminator ws of None \<Rightarrow> None | Some q \<Rightarrow> Some (h + q)))"

text \<open>\<^verbatim>\<open>.*?-+\s*$\<close>: the lazy \<^verbatim>\<open>.*?\<close> takes one more character of the line at a time
  until the rest of the pattern matches.\<close>

fun lazy_len :: "string \<Rightarrow> nat option" where
  "lazy_len [] = None"
| "lazy_len (c # cs) =
     (case tail_len (c # cs) of
        Some n \<Rightarrow> Some n
      | None \<Rightarrow> if is_line_terminator c then None else map_option Suc (lazy_len cs))"

text \<open>
  The whole pattern at a line start, for the literal \<open>lit\<close> (SOURCE: or END): the run of
  hyphens and the white space after it are taken whole, since a shorter choice leaves a
  hyphen or a white space character where the literal must begin.
\<close>

definition match_len :: "string \<Rightarrow> string \<Rightarrow> nat option" where
  "match_len lit s =
     (let h = length (takeWhile is_hyphen s);
          r = dropWhile is_hyphen s;
          w = length (takeWhile is_space r);
          r' = dropWhile is_space r
      in if h = 0 then None
         else if \<not> prefix_ci lit r' then None
         else map_option (\<lambda>n. h + w + length lit + n) (lazy_len (drop (length lit) r')))"

text \<open>
  \<^verbatim>\<open>text.replace(re, "")\<close> with the flag \<^verbatim>\<open>g\<close>: the input is scanned from the left;
  \<open>bol\<close> says that the position is a line start, \<open>skip\<close> counts the characters of the
  current match still to be dropped. A match is never empty.
\<close>

fun replace_tag :: "string \<Rightarrow> bool \<Rightarrow> nat \<Rightarrow> string \<Rightarrow> string" where
  "replace_tag lit bol skip [] = []"
| "replace_tag lit bol (Suc k) (c # cs) = replace_tag lit (is_line_terminator c) k cs"
| "replace_tag lit bol 0 (c # cs) =
     (case (if bol then match_len lit (c # cs) else None) of
        Some n \<Rightarrow> replace_tag lit (is_line_terminator c) (n - 1) cs
      | None \<Rightarrow> c # replace_tag lit (is_line_terminator c) 0 cs)"

definition cleanResponse :: "string \<Rightarrow> string" where
  "cleanResponse text =
     (if text = [] then []
      else trim (replace_tag ''END'' True 0 (replace_tag ''SOURCE:'' True 0 text)))"

section \<open>Provider gateway (aiService.ts, getAIResponse)\<close>

text \<open>
  What \<^verbatim>\<open>await res.json()\<close> and the reads of \<^verbatim>\<open>data\<close> give: the body is not JSON and
  \<^verbatim>\<open>res.json()\<close> rejects with a message; the body is the JSON value \<^verbatim>\<open>null\<close>, where
  reading a property of \<^verbatim>\<open>data\<close> throws a TypeError with the engine's message; or
  another JSON value, of which the code reads \<^verbatim>\<open>data.error?.message\<close> and
  \<^verbatim>\<open>data.choices?.[0]?.message?.content\<close>.
\<close>

datatype Body = NotJson string | JsonNull string | JsonValue "string option" "string option"

text \<open>\<^verbatim>\<open>fetch\<close> rejects (no response), or resolves to a response with a status code.\<close>

datatype FetchOutcome = NetworkError string | Response nat Body

text \<open>\<^verbatim>\<open>generateContent\<close> of the SDK throws, or returns a response with \<^verbatim>\<open>text\<close>.\<close>

datatype GenOutcome = GenError string | GenText "string option"

record Request =
  req_url :: string
  req_authorization :: string
  req_model :: string
  req_messages :: "(string \<times> string) list"
  req_max_tokens :: nat
  req_temperature :: "real option"

record GenRequest =
  gen_apiKey :: string
  gen_model :: string
  gen_contents :: "(string \<times> string) list"
  gen_systemInstruction :: string
  gen_temperature :: real
  gen_thinkingBudget :: "nat option"

text \<open>What the gateway does to the outside, in order: the trace of a call. Writing to the
  console is not part of it.\<close>

datatype Event = Fetch Request | Sleep nat | GenerateContent GenRequest

fun is_Fetch :: "Event \<Rightarrow> bool" where
  "is_Fetch (Fetch r) = True"
| "is_Fetch e = False"

fun is_GenerateContent :: "Event \<Rightarrow> bool" where
  "is_GenerateContent (GenerateContent r) = True"
| "is_GenerateContent e = False"

definition fetch_count :: "Event list \<Rightarrow> nat" where
  "fetch_count trace = length (filter is_Fetch trace)"

definition generate_count :: "Event list \<Rightarrow> nat" where
  "generate_count trace = length (filter is_GenerateContent trace)"

text \<open>The errors that getAIResponse throws, and the \<^verbatim>\<open>message\<close> of each.\<close>

datatype Failure =
    ApiKeyMissing ModelProvider
  | AuthenticationFailed ModelProvider
  | ProviderError ModelProvider string
  | GeminiFailure string
  | Thrown string

definition failure_message :: "Failure \<Rightarrow> string" where
  "failure_message e =
     (case e of
        ApiKeyMissing p \<Rightarrow> ''API Key missing for '' @ toUpperCase (provider_name p)
      | AuthenticationFailed p \<Rightarrow> toUpperCase (provider_name p) @ '': Authentication Failed. Check API Key.''
      | ProviderError p m \<Rightarrow> toUpperCase (provider_name p) @ '': '' @ m
      | GeminiFailure m \<Rightarrow> ''Gemini: '' @ m
      | Thrown m \<Rightarrow> m)"

definition role_name :: "Role \<Rightarrow> string" where
  "role_name r = (case r of RUser \<Rightarrow> ''user'' | RAssistant \<Rightarrow> ''assistant'' | RModel \<Rightarrow> ''model'')"

text \<open>\<^verbatim>\<open>x || d\<close> for an optional string: \<open>d\<close> when \<open>x\<close> is absent or empty.\<close>

definition or_else :: "string option \<Rightarrow> string \<Rightarrow> string" where
  "or_else x d = (case x of None \<Rightarrow> d | Some v \<Rightarrow> if v = [] then d else v)"

text \<open>\<^verbatim>\<open>res.ok\<close> of the Fetch API: the status is in the range 200 to 299.\<close>

definition res_ok :: "nat \<Rightarrow> bool" where
  "res_ok status = (200 \<le> status \<and> status \<le> 299)"

definition rest_request :: "ModelProvider \<Rightarrow> string \<Rightarrow> string \<Rightarrow> Message list \<Rightarrow> string \<Rightarrow> real \<Rightarrow> Request" where
  "rest_request provider modelName systemPrompt history apiKey safeTemperature =
     \<lparr> req_url = (if provider = OpenAI then ''https://api.openai.com/v1/chat/completions''
                  else ''https://api.deepseek.com/chat/completions''),
       req_authorization = ''Bearer '' @ apiKey,
       req_model = modelName,
       req_messages = (''system'', or_else (Some systemPrompt) ''You are a helpful assistant.'')
                      # map (\<lambda>h. (role_name (role h), content h)) (mapHistory history provider),
       req_max_tokens = 2048,
       req_temperature = (if modelName \<noteq> ''deepseek-reasoner'' then Some safeTemperature else None) \<rparr>"

definition gemini_request :: "string option \<Rightarrow> string \<Rightarrow> string \<Rightarrow> Message list \<Rightarrow> real \<Rightarrow> GenRequest" where
  "gemini_request env_API_KEY modelName systemPrompt history safeTemperature =
     \<lparr> gen_apiKey = or_else env_API_KEY [],
       gen_model = modelName,
       gen_contents = map (\<lambda>h. (role_name (role h), content h)) (mapHistory history Gemini),
       gen_systemInstruction = systemPrompt,
       gen_temperature = safeTemperature,
       gen_thinkingBudget = (if includes_str modelName ''pro'' then Some 32768 else None) \<rparr>"

text \<open>
  \<open>env_API_KEY\<close> is \<^verbatim>\<open>process.env.API_KEY\<close>; \<open>net k\<close> is the outcome of the \<open>k\<close>-th
  \<^verbatim>\<open>fetch\<close> and \<open>sdk k\<close> that of the \<open>k\<close>-th \<^verbatim>\<open>generateContent\<close>, counted over the
  trace. The result is the resolved string (\<open>Inr\<close>) or the thrown error (\<open>Inl\<close>), with the
  trace extended by what the call did.
\<close>

function getAIResponse ::
  "string option \<Rightarrow> (nat \<Rightarrow> FetchOutcome) \<Rightarrow> (nat \<Rightarrow> GenOutcome) \<Rightarrow>
   ModelProvider \<Rightarrow> string \<Rightarrow> string \<Rightarrow> Message list \<Rightarrow> string \<Rightarrow> real \<Rightarrow> int \<Rightarrow>
   Event list \<Rightarrow> (Failure + string) \<times> Event list" where
  "getAIResponse env_API_KEY net sdk provider modelName systemPrompt history apiKey temperature retryCount trace =
     (let safeTemperature = min (max temperature 0) 1.2 in
      if provider = Gemini then
        (let trace1 = trace @ [GenerateContent (gemini_request env_API_KEY modelName systemPrompt history safeTemperature)]
         in case sdk (generate_count trace) of
              GenError msg \<Rightarrow> (Inl (GeminiFailure msg), trace1)
            | GenText t \<Rightarrow> (Inr (cleanResponse (or_else t ''No response.'')), trace1))
      else if apiKey = [] then (Inl (ApiKeyMissing provider), trace)
      else
        (let trace1 = trace @ [Fetch (rest_request provider modelName systemPrompt history apiKey safeTemperature)]
         in case net (fetch_count trace) of
              NetworkError msg \<Rightarrow> (Inl (Thrown msg), trace1)
            | Response status body \<Rightarrow>
                (case body of
                   NotJson msg \<Rightarrow> (Inl (Thrown msg), trace1)
                 | JsonNull msg \<Rightarrow>
                     if \<not> res_ok status \<and> status = 401 then (Inl (AuthenticationFailed provider), trace1)
                     else (Inl (Thrown msg), trace1)
                 | JsonValue error_message choice_content \<Rightarrow>
                     if \<not> res_ok status then
                       (if status = 401 then (Inl (AuthenticationFailed provider), trace1)
                        else if status = 429 \<and> retryCount < 1
                        then getAIResponse env_API_KEY net sdk provider modelName systemPrompt history apiKey
                               temperature (retryCount + 1) (trace1 @ [Sleep 2000])
                        else (Inl (ProviderError provider
                                     (or_else error_message (''Error '' @ show_nat status))), trace1))
                     else (Inr (cleanResponse (or_else choice_content ''No content.'')), trace1))))"
  by pat_completeness auto
termination
  by (relation "measure (\<lambda>(env_API_KEY, net, sdk, provider, modelName, systemPrompt, history, apiKey,
                           temperature, retryCount, trace). nat (1 - retryCount))") auto

declare getAIResponse.simps [simp del]

section \<open>Orchestration (App.tsx, triggerAIResponseForChat)\<close>

record Chat =
  chat_id :: string
  name :: string
  avatar :: string
  provider :: ModelProvider
  modelName :: string
  systemPrompt :: string
  temperature :: "real option"
  lastMessage :: "string option"
  lastTimestamp :: "nat option"
  isPinned :: bool
  messages :: "Message list"
  tags :: "string list"
  parentId :: "string option"
  draft :: "string option"
  isGroup :: "bool option"
  participantIds :: "string list option"

text \<open>The fields of AppSettings that the orchestration reads; the others configure the
  user interface.\<close>

record AppSettings =
  openaiKey :: string
  deepseekKey :: string
  globalSystemPrompt :: string

text \<open>The React state that triggerAIResponseForChat reads and sets.\<close>

record AppState =
  chats :: "Chat list"
  draftSubChat :: "Chat option"
  activeChatId :: "string option"
  pendingBranch :: "(string \<times> Message) option"

text \<open>An optional string is truthy when it is present and not empty.\<close>

definition truthy :: "string option \<Rightarrow> bool" where
  "truthy x = (case x of None \<Rightarrow> False | Some v \<Rightarrow> v \<noteq> [])"

definition isDraft :: "AppState \<Rightarrow> string \<Rightarrow> bool" where
  "isDraft closure chatId =
     (case draftSubChat closure of None \<Rightarrow> False | Some d \<Rightarrow> chat_id d = chatId)"

definition chatBase_of :: "AppState \<Rightarrow> string \<Rightarrow> Chat option" where
  "chatBase_of closure chatId =
     (if isDraft closure chatId then draftSubChat closure
      else find (\<lambda>c. chat_id c = chatId) (chats closure))"

definition targetAssistant_of :: "AppState \<Rightarrow> Chat \<Rightarrow> string option \<Rightarrow> Chat option" where
  "targetAssistant_of closure chatBase specificAuthorId =
     (if truthy specificAuthorId \<and> specificAuthorId \<noteq> Some ''user''
      then find (\<lambda>c. Some (chat_id c) = specificAuthorId) (chats closure)
      else if isGroup chatBase \<noteq> Some True
              \<and> (case participantIds chatBase of None \<Rightarrow> True | Some l \<Rightarrow> l = [])
      then Some chatBase
      else (case participantIds chatBase of
              Some (p # ps) \<Rightarrow> find (\<lambda>c. chat_id c = p) (chats closure)
            | _ \<Rightarrow> None))"

definition apiKey_of :: "AppSettings \<Rightarrow> Chat \<Rightarrow> string" where
  "apiKey_of settings targetAssistant =
     (if provider targetAssistant = OpenAI then openaiKey settings
      else if provider targetAssistant = DeepSeek then deepseekKey settings
      else [])"

text \<open>The warning sign U+26A0 U+FE0F that opens the text of the missing-key message lies
  outside the modelled code units; it is written as its UTF-8 bytes.\<close>

definition warning_sign :: string where
  "warning_sign = [CHR 0xE2, CHR 0x9A, CHR 0xA0, CHR 0xEF, CHR 0xB8, CHR 0x8F]"

text \<open>
  The updater \<^verbatim>\<open>prev.map(c => c.id === chatId ? {...c, messages, lastMessage, lastTimestamp: Date.now()} : c)\<close>.
  The clock is read once for each chat that has the id; \<open>k\<close> is the index of the next
  reading.
\<close>

fun set_messages ::
  "string \<Rightarrow> Message list \<Rightarrow> string \<Rightarrow> (nat \<Rightarrow> nat) \<Rightarrow> nat \<Rightarrow> Chat list \<Rightarrow> Chat list" where
  "set_messages chatId finalMsgs lastText now k [] = []"
| "set_messages chatId finalMsgs lastText now k (c # cs) =
     (if chat_id c = chatId
      then c\<lparr> messages := finalMsgs, lastMessage := Some lastText, lastTimestamp := Some (now k) \<rparr>
           # set_messages chatId finalMsgs lastText now (Suc k) cs
      else c # set_messages chatId finalMsgs lastText now k cs)"

text \<open>One round of the loop over \<^verbatim>\<open>prefixesToStrip\<close>.\<close>

definition strip_prefix :: "string \<Rightarrow> string \<Rightarrow> string" where
  "strip_prefix cleanedText pre =
     (if prefix pre cleanedText then trim (drop (length pre) cleanedText) else cleanedText)"

definition prefixesToStrip :: "Chat \<Rightarrow> string list" where
  "prefixesToStrip targetAssistant =
     [ ''['' @ name targetAssistant @ '']:'',
       name targetAssistant @ '':'',
       ''--- SOURCE: '' @ toUpperCase (name targetAssistant) @ '' ---'' ]"

text \<open>
  \<open>closure\<close> is the state that the function was created over (it reads \<^verbatim>\<open>chats\<close> and
  \<^verbatim>\<open>draftSubChat\<close> from it); \<open>prev\<close> is the state that its updaters are applied to.
  \<open>now k\<close> is the value of the \<open>k\<close>-th evaluation of \<^verbatim>\<open>Date.now()\<close>. The result is the
  state after the updaters, and the trace of the gateway.
\<close>

definition triggerAIResponseForChat ::
  "string option \<Rightarrow> (nat \<Rightarrow> FetchOutcome) \<Rightarrow> (nat \<Rightarrow> GenOutcome) \<Rightarrow> (nat \<Rightarrow> nat) \<Rightarrow>
   AppSettings \<Rightarrow> AppState \<Rightarrow> string \<Rightarrow> Message list \<Rightarrow> string option \<Rightarrow>
   AppState \<Rightarrow> Event list \<Rightarrow> AppState \<times> Event list" where
  "triggerAIResponseForChat env_API_KEY net sdk now settings closure chatId currentMessages
       specificAuthorId prev trace =
     (case chatBase_of closure chatId of
        None \<Rightarrow> (prev, trace)
      | Some chatBase \<Rightarrow>
         (case targetAssistant_of closure chatBase specificAuthorId of
            None \<Rightarrow> (prev, trace)
          | Some targetAssistant \<Rightarrow>
             (let apiKey = apiKey_of settings targetAssistant;
                  finalSystemPrompt = systemPrompt targetAssistant @ newline @ newline
                                      @ globalSystemPrompt settings
              in if provider targetAssistant \<noteq> Gemini \<and> apiKey = [] then
                   (let systemMsg =
                          \<lparr> msg_id = ''sys-'' @ show_nat (now 0),
                            msg_text = warning_sign @ '' Error: No API key for ''
                                       @ toUpperCase (provider_name (provider targetAssistant)) @ ''.'',
                            sender = SSystem, authorId = None, authorName = None,
                            timestamp = now 1, isError = Some True \<rparr>
                    in (prev\<lparr> chats := set_messages chatId (currentMessages @ [systemMsg])
                                           (msg_text systemMsg) now 2 (chats prev) \<rparr>, trace))
                 else
                   (case getAIResponse env_API_KEY net sdk (provider targetAssistant)
                           (modelName targetAssistant) finalSystemPrompt currentMessages apiKey
                           (case temperature targetAssistant of None \<Rightarrow> 0.7 | Some t \<Rightarrow> t) 0 trace of
                      (Inr aiResponseText, trace1) \<Rightarrow>
                        (let cleanedText = foldl strip_prefix (trim aiResponseText)
                                             (prefixesToStrip targetAssistant);
                             aiMsg = \<lparr> msg_id = ''ai-'' @ show_nat (now 0), msg_text = cleanedText,
                                       sender = SAi, authorId = Some (chat_id targetAssistant),
                                       authorName = Some (name targetAssistant),
                                       timestamp = now 1, isError = None \<rparr>;
                             finalMsgs = currentMessages @ [aiMsg]
                         in if isDraft closure chatId then
                              (let finalizedChat = chatBase\<lparr> messages := finalMsgs,
                                     lastMessage := Some cleanedText, lastTimestamp := Some (now 2) \<rparr>
                               in (prev\<lparr> chats := finalizedChat
                                              # filter (\<lambda>c. chat_id c \<noteq> chat_id finalizedChat) (chats prev),
                                          draftSubChat := None,
                                          activeChatId := Some (chat_id finalizedChat),
                                          pendingBranch := None \<rparr>, trace1))
                            else (prev\<lparr> chats := set_messages chatId finalMsgs cleanedText now 2
                                                    (chats prev) \<rparr>, trace1))
                    | (Inl e, trace1) \<Rightarrow>
                        (let errorMsg =
                               \<lparr> msg_id = ''err-'' @ show_nat (now 0), msg_text = failure_message e,
                                 sender = SSystem, authorId = None, authorName = None,
                                 timestamp = now 1, isError = Some True \<rparr>
                         in (prev\<lparr> chats := set_messages chatId (currentMessages @ [errorMsg])
                                                (msg_text errorMsg) now 2 (chats prev) \<rparr>, trace1))))))"

section \<open>Turn selection (ChatWindow, responders and triggerNextAI)\<close>

record Responder =
  r_id :: string
  r_name :: string
  r_avatar :: string
  r_icon :: string
  r_color :: string

definition participants :: "Chat \<Rightarrow> Chat list \<Rightarrow> Chat list" where
  "participants chat allChats =
     (let list = (case participantIds chat of None \<Rightarrow> [] | Some l \<Rightarrow> l)
      in filter (\<lambda>c. chat_id c \<in> set list) allChats)"

definition responders :: "Chat \<Rightarrow> Chat list \<Rightarrow> Responder list" where
  "responders chat allChats =
     [ \<lparr> r_id = ''user'', r_name = ''Me'', r_avatar = [], r_icon = ''fa-user'', r_color = ''blue'' \<rparr>,
       \<lparr> r_id = chat_id chat, r_name = name chat, r_avatar = avatar chat,
         r_icon = ''fa-robot'', r_color = ''orange'' \<rparr> ]
     @ map (\<lambda>p. \<lparr> r_id = chat_id p, r_name = name p, r_avatar = avatar p,
                  r_icon = ''fa-robot'', r_color = ''orange'' \<rparr>)
           (filter (\<lambda>p. chat_id p \<noteq> chat_id chat) (participants chat allChats))"

definition aiResponders :: "Chat \<Rightarrow> Chat list \<Rightarrow> Responder list" where
  "aiResponders chat allChats = filter (\<lambda>r. r_id r \<noteq> ''user'') (responders chat allChats)"









section \<open>Notions used in the statements\<close>

text \<open>The number of characters of a list of messages (the loop's \<open>totalChars\<close>).\<close>

definition total_chars :: "Message list \<Rightarrow> nat" where
  "total_chars ms = sum_list (map (\<lambda>m. length (msg_text m)) ms)"

text \<open>A role sequence that reads \<open>r\<close>, then the other of user and assistant, and so on.\<close>

fun alternates :: "Role \<Rightarrow> Role list \<Rightarrow> bool" where
  "alternates r [] = True"
| "alternates r (x # xs) = (x = r \<and> alternates (if r = RUser then RAssistant else RUser) xs)"

text \<open>Strict alternation: user, assistant, user, ... from a user turn to a user turn.\<close>

definition strict_alternation :: "Role list \<Rightarrow> bool" where
  "strict_alternation rs = (alternates RUser rs \<and> (rs = [] \<or> last rs = RUser))"

text \<open>\<^verbatim>\<open>res.json()\<close> resolves: the body of the response is JSON.\<close>

fun parses :: "Body \<Rightarrow> bool" where
  "parses (NotJson msg) = False"
| "parses (JsonNull msg) = True"
| "parses (JsonValue error_message choice_content) = True"

section \<open>Example inputs\<close>

definition bot_hi :: Message where
  "bot_hi = \<lparr> msg_id = ''1'', msg_text = ''hi'', sender = SAi, authorId = None,
              authorName = Some ''Bot'', timestamp = 0, isError = None \<rparr>"

definition ai_first :: Message where
  "ai_first = \<lparr> msg_id = ''1'', msg_text = ''a'', sender = SAi, authorId = None,
                authorName = None, timestamp = 0, isError = None \<rparr>"

definition user_second :: Message where
  "user_second = \<lparr> msg_id = ''2'', msg_text = ''b'', sender = SUser, authorId = None,
                   authorName = None, timestamp = 1, isError = None \<rparr>"

definition system_only :: Message where
  "system_only = \<lparr> msg_id = ''sys-1'', msg_text = ''Network down'', sender = SSystem,
                   authorId = None, authorName = None, timestamp = 0, isError = Some True \<rparr>"

definition one_char :: Message where
  "one_char = \<lparr> msg_id = ''m'', msg_text = ''x'', sender = SUser, authorId = None,
                authorName = None, timestamp = 0, isError = None \<rparr>"

definition big :: Message where
  "big = \<lparr> msg_id = ''b'', msg_text = replicate 12001 (CHR ''x''), sender = SUser,
           authorId = None, authorName = None, timestamp = 0, isError = None \<rparr>"

definition tagged_hello :: string where
  "tagged_hello = ''--- SOURCE: BOT ---'' @ newline @ ''hello'' @ newline @ ''--- END BOT ---''"

definition spaced_tag :: string where
  "spaced_tag = '' --- SOURCE: BOT ---''"

definition spaced_reply :: string where
  "spaced_reply = '' --- SOURCE: BOT ---'' @ newline @ ''Hello''"

definition glued_tag :: string where
  "glued_tag = ''-'' @ newline @ ''-END-'' @ newline @ ''SOURCE: x-''"

text \<open>Network and SDK behaviours for the examples.\<close>

definition rate_limited :: "nat \<Rightarrow> FetchOutcome" where
  "rate_limited k = Response 429 (JsonValue (Some ''Rate limit reached'') None)"

definition rate_limited_html :: "nat \<Rightarrow> FetchOutcome" where
  "rate_limited_html k = Response 429 (NotJson ''Unexpected token < in JSON at position 0'')"

definition unauthorized :: "nat \<Rightarrow> FetchOutcome" where
  "unauthorized k = Response 401 (JsonValue (Some ''Incorrect API key provided'') None)"

definition sdk_hello :: "nat \<Rightarrow> GenOutcome" where
  "sdk_hello k = GenText (Some ''Hello'')"

text \<open>An arena, one of its participants, and a draft thread branched from the arena.\<close>

definition participant_p1 :: Chat where
  "participant_p1 =
     \<lparr> chat_id = ''p1'', name = ''Analyst'', avatar = [], provider = OpenAI,
       modelName = ''gpt-4o'', systemPrompt = ''You analyse.'', temperature = None,
       lastMessage = None, lastTimestamp = None, isPinned = False, messages = [],
       tags = [], parentId = None, draft = None, isGroup = None, participantIds = None \<rparr>"

definition participant_p2 :: Chat where
  "participant_p2 = participant_p1\<lparr> chat_id := ''p2'', name := ''Critic'', provider := DeepSeek,
                                     modelName := ''deepseek-chat'' \<rparr>"

definition arena :: Chat where
  "arena =
     \<lparr> chat_id = ''arena-1'', name = ''Arena'', avatar = [], provider = Gemini,
       modelName = ''gemini-3-flash-preview'', systemPrompt = ''You moderate.'',
       temperature = Some 0.7, lastMessage = None, lastTimestamp = None, isPinned = False,
       messages = [], tags = [], parentId = None, draft = None, isGroup = Some True,
       participantIds = Some [''p1'', ''p2''] \<rparr>"

definition draft_thread :: Chat where
  "draft_thread = arena\<lparr> chat_id := ''branch-1'', name := ''Thread: b...'',
                          parentId := Some ''arena-1'',
                          lastMessage := Some ''Starting new thread...'',
                          lastTimestamp := Some 5 \<rparr>"

definition listed_state :: AppState where
  "listed_state = \<lparr> chats = [arena, participant_p1, participant_p2], draftSubChat = None,
                    activeChatId = Some ''arena-1'', pendingBranch = None \<rparr>"

definition draft_state :: AppState where
  "draft_state = \<lparr> chats = [arena, participant_p1, participant_p2],
                   draftSubChat = Some draft_thread, activeChatId = Some ''branch-1'',
                   pendingBranch = Some (''arena-1'', user_second) \<rparr>"

definition no_keys :: AppSettings where
  "no_keys = \<lparr> openaiKey = [], deepseekKey = [], globalSystemPrompt = ''Be kind.'' \<rparr>"

definition clock :: "nat \<Rightarrow> nat" where
  "clock k = 1700000000000 + k"



section \<open>Windowing\<close>

lemma window_loop_take: "\<exists>k. window_loop xs t acc = rev (take k xs) @ acc"
proof (induction xs arbitrary: t acc)
  case Nil
  then show ?case by simp
next
  case (Cons m xs)
  show ?case
  proof (cases "t + length (msg_text m) > MAX_HISTORY_CHARS \<and> acc \<noteq> []")
    case True
    then have "window_loop (m # xs) t acc = rev (take 0 (m # xs)) @ acc" by simp
    then show ?thesis by blast
  next
    case False
    from Cons.IH obtain k where
      "window_loop xs (t + length (msg_text m)) (m # acc) = rev (take k xs) @ m # acc" by blast
    with False have "window_loop (m # xs) t acc = rev (take (Suc k) (m # xs)) @ acc" by simp
    then show ?thesis by blast
  qed
qed

lemma window_loop_suffix: "suffix (window_loop (rev xs) 0 []) xs"
proof -
  obtain k where "window_loop (rev xs) 0 [] = rev (take k (rev xs)) @ []"
    using window_loop_take by blast
  then have "window_loop (rev xs) 0 [] = drop (length xs - k) xs"
    by (simp add: take_rev)
  then show ?thesis by (simp add: suffix_drop)
qed

lemma window_loop_length: "length (window_loop xs t acc) \<le> length xs + length acc"
proof (induction xs arbitrary: t acc)
  case Nil
  then show ?case by simp
next
  case (Cons m xs)
  have "length (window_loop xs (t + length (msg_text m)) (m # acc)) \<le> length xs + length (m # acc)"
    by (rule Cons.IH)
  then show ?case by simp
qed

lemma window_loop_nonempty: "xs \<noteq> [] \<or> acc \<noteq> [] \<Longrightarrow> window_loop xs t acc \<noteq> []"
  by (induction xs arbitrary: t acc) auto

text \<open>Once a message is in the window, the budget holds or the window is that one message.\<close>

lemma window_loop_budget:
  "acc \<noteq> [] \<Longrightarrow> t = total_chars acc \<Longrightarrow> t \<le> MAX_HISTORY_CHARS \<or> length acc = 1 \<Longrightarrow>
   total_chars (window_loop xs t acc) \<le> MAX_HISTORY_CHARS \<or> length (window_loop xs t acc) = 1"
proof (induction xs arbitrary: t acc)
  case Nil
  then show ?case by simp
next
  case (Cons m xs)
  show ?case
  proof (cases "t + length (msg_text m) > MAX_HISTORY_CHARS")
    case True
    with Cons.prems show ?thesis by simp
  next
    case False
    have "total_chars (window_loop xs (t + length (msg_text m)) (m # acc)) \<le> MAX_HISTORY_CHARS
          \<or> length (window_loop xs (t + length (msg_text m)) (m # acc)) = 1"
      using False Cons.prems by (intro Cons.IH) (auto simp: total_chars_def)
    with False show ?thesis by simp
  qed
qed

lemma window_loop_budget0:
  "total_chars (window_loop xs 0 []) \<le> MAX_HISTORY_CHARS \<or> length (window_loop xs 0 []) = 1"
proof (cases xs)
  case Nil
  then show ?thesis by (simp add: total_chars_def)
next
  case (Cons m rest)
  have "total_chars (window_loop rest (length (msg_text m)) [m]) \<le> MAX_HISTORY_CHARS
        \<or> length (window_loop rest (length (msg_text m)) [m]) = 1"
    by (intro window_loop_budget) (auto simp: total_chars_def)
  with Cons show ?thesis by simp
qed

lemma window_loop_all:
  "t + total_chars xs \<le> MAX_HISTORY_CHARS \<Longrightarrow> window_loop xs t acc = rev xs @ acc"
  by (induction xs arbitrary: t acc) (auto simp: total_chars_def)

lemma window_loop_big:
  "acc \<noteq> [] \<Longrightarrow> t > MAX_HISTORY_CHARS \<Longrightarrow> window_loop xs t acc = acc"
  by (cases xs) auto

lemma total_chars_rev: "total_chars (rev xs) = total_chars xs"
  by (simp add: total_chars_def rev_map [symmetric])

lemma total_chars_ones: "\<forall>m\<in>set ms. length (msg_text m) = 1 \<Longrightarrow> total_chars ms = length ms"
  by (induction ms) (auto simp: total_chars_def)

lemma slice_last_nonempty: "0 < n \<Longrightarrow> xs \<noteq> [] \<Longrightarrow> slice_last n xs \<noteq> []"
  by (cases xs) (simp_all add: slice_last_def)

lemma slice_last_snoc: "0 < n \<Longrightarrow> rev (slice_last n (xs @ [x])) = x # rev (slice_last (n - 1) xs)"
  by (cases n) (simp_all add: slice_last_def Suc_diff_le)

lemma finalMessages_suffix: "suffix (finalMessages h) (chatMessages h)"
proof -
  have "suffix (finalMessages h) (slice_last MAX_HISTORY_MESSAGES (chatMessages h))"
    by (simp add: finalMessages_def window_loop_suffix)
  moreover have "suffix (slice_last MAX_HISTORY_MESSAGES (chatMessages h)) (chatMessages h)"
    by (simp add: slice_last_def suffix_drop)
  ultimately show ?thesis by (rule suffix_order.trans)
qed

lemma finalMessages_length: "length (finalMessages h) \<le> 40"
proof -
  have "length (finalMessages h) \<le> length (slice_last MAX_HISTORY_MESSAGES (chatMessages h))"
    using window_loop_length [of "rev (slice_last MAX_HISTORY_MESSAGES (chatMessages h))" 0 "[]"]
    by (simp add: finalMessages_def)
  also have "\<dots> \<le> 40" by (simp add: slice_last_def MAX_HISTORY_MESSAGES_def)
  finally show ?thesis .
qed

lemma finalMessages_budget:
  "total_chars (finalMessages h) \<le> 12000 \<or> length (finalMessages h) = 1"
  using window_loop_budget0 [of "rev (slice_last MAX_HISTORY_MESSAGES (chatMessages h))"]
  by (simp add: finalMessages_def MAX_HISTORY_CHARS_def)

lemma finalMessages_nonempty: "chatMessages h \<noteq> [] \<Longrightarrow> finalMessages h \<noteq> []"
  by (simp add: finalMessages_def window_loop_nonempty slice_last_nonempty MAX_HISTORY_MESSAGES_def)

lemma finalMessages_small:
  "total_chars (slice_last 40 (chatMessages h)) \<le> 12000 \<Longrightarrow>
   finalMessages h = slice_last 40 (chatMessages h)"
  using window_loop_all [of 0 "rev (slice_last 40 (chatMessages h))" "[]"]
  by (simp add: finalMessages_def total_chars_rev MAX_HISTORY_MESSAGES_def MAX_HISTORY_CHARS_def)

lemma finalMessages_big_last:
  assumes "chatMessages h \<noteq> []" "length (msg_text (last (chatMessages h))) > 12000"
  shows "finalMessages h = [last (chatMessages h)]"
proof -
  obtain xs x where xs: "chatMessages h = xs @ [x]"
    using assms(1) by (metis append_butlast_last_id)
  have "rev (slice_last MAX_HISTORY_MESSAGES (chatMessages h))
        = x # rev (slice_last (MAX_HISTORY_MESSAGES - 1) xs)"
    unfolding xs by (rule slice_last_snoc) (simp add: MAX_HISTORY_MESSAGES_def)
  moreover have "length (msg_text x) > MAX_HISTORY_CHARS"
    using assms(2) xs by (simp add: MAX_HISTORY_CHARS_def)
  ultimately show ?thesis
    using xs by (simp add: finalMessages_def window_loop_big)
qed

lemma finalMessages_fifty:
  assumes len: "length (chatMessages h) = 50"
    and one: "\<forall>m\<in>set (chatMessages h). length (msg_text m) = 1"
  shows "finalMessages h = slice_last 40 (chatMessages h) \<and> length (finalMessages h) = 40"
proof -
  have "\<forall>m\<in>set (slice_last 40 (chatMessages h)). length (msg_text m) = 1"
    using one by (auto simp: slice_last_def dest: in_set_dropD)
  then have "total_chars (slice_last 40 (chatMessages h)) = length (slice_last 40 (chatMessages h))"
    by (rule total_chars_ones)
  also have "\<dots> = 40" using len by (simp add: slice_last_def)
  finally have "total_chars (slice_last 40 (chatMessages h)) = 40" .
  then have "finalMessages h = slice_last 40 (chatMessages h)"
    by (intro finalMessages_small) simp
  then show ?thesis using len by (simp add: slice_last_def)
qed

text \<open>
  Claim C5. The messages that the windowing step of mapHistory retains
  (\<open>finalMessages\<close>) are a contiguous suffix of the filtered messages, at most 40 of them;
  their total text length is within 12000 characters unless the window is one message;
  the window is not empty when a message passed the filter. With 50 filtered messages of
  one character each the window is the last 40; when the last filtered message alone is
  longer than 12000 characters the window is exactly that message.
\<close>

theorem C5_windowing:
  "suffix (finalMessages h) (chatMessages h)
   \<and> length (finalMessages h) \<le> 40
   \<and> (total_chars (finalMessages h) \<le> 12000 \<or> length (finalMessages h) = 1)
   \<and> (chatMessages h \<noteq> [] \<longrightarrow> finalMessages h \<noteq> [])
   \<and> (length (chatMessages h) = 50 \<and> (\<forall>m\<in>set (chatMessages h). length (msg_text m) = 1)
        \<longrightarrow> finalMessages h = slice_last 40 (chatMessages h) \<and> length (finalMessages h) = 40)
   \<and> (chatMessages h \<noteq> [] \<and> length (msg_text (last (chatMessages h))) > 12000
        \<longrightarrow> finalMessages h = [last (chatMessages h)])"
  using finalMessages_suffix finalMessages_length finalMessages_budget finalMessages_nonempty
    finalMessages_fifty finalMessages_big_last by blast

theorem C5_windowing_witness:
  "length (chatMessages (replicate 50 one_char)) = 50
   \<and> list_all (\<lambda>m. length (msg_text m) = 1) (chatMessages (replicate 50 one_char))
   \<and> length (finalMessages (replicate 50 one_char)) = 40
   \<and> chatMessages [one_char, big] \<noteq> []
   \<and> length (msg_text (last (chatMessages [one_char, big]))) > 12000
   \<and> finalMessages [one_char, big] = [big]"
proof -
  have a: "chatMessages (replicate 50 one_char) = replicate 50 one_char"
    by (simp add: chatMessages_def one_char_def)
  have b: "chatMessages [one_char, big] = [one_char, big]"
    by (simp add: chatMessages_def one_char_def big_def)
  have c: "length (msg_text one_char) = 1" by (simp add: one_char_def)
  have d: "length (msg_text big) = 12001" by (simp add: big_def)
  show ?thesis
    using C5_windowing [of "replicate 50 one_char"] C5_windowing [of "[one_char, big]"]
    by (auto simp: a b c d list_all_iff)
qed

section \<open>Non-empty output and non-empty contents\<close>

lemma content_mapMessage: "content (mapMessage p m) \<noteq> []"
  by (simp add: mapMessage_def)

lemma merge_step_nonempty: "merge_step acc m \<noteq> []"
  by (simp add: merge_step_def)

lemma merge_step_content:
  assumes "\<forall>t\<in>set acc. content t \<noteq> []" "content m \<noteq> []"
  shows "\<forall>t\<in>set (merge_step acc m). content t \<noteq> []"
proof (cases "acc \<noteq> [] \<and> role (last acc) = role m")
  case True
  have "set (butlast acc) \<subseteq> set acc" by (auto dest: in_set_butlastD)
  with assms True show ?thesis by (auto simp: merge_step_def)
next
  case False
  with assms show ?thesis by (auto simp: merge_step_def)
qed

lemma foldl_merge_step_content:
  "\<forall>t\<in>set acc. content t \<noteq> [] \<Longrightarrow> \<forall>m\<in>set ms. content m \<noteq> [] \<Longrightarrow>
   \<forall>t\<in>set (foldl merge_step acc ms). content t \<noteq> []"
proof (induction ms arbitrary: acc)
  case Nil
  then show ?case by simp
next
  case (Cons m ms)
  have "\<forall>t\<in>set (merge_step acc m). content t \<noteq> []"
    using Cons.prems by (intro merge_step_content) auto
  then have "\<forall>t\<in>set (foldl merge_step (merge_step acc m) ms). content t \<noteq> []"
    using Cons.prems by (intro Cons.IH) auto
  then show ?case by simp
qed

lemma foldl_merge_step_nonempty: "acc \<noteq> [] \<or> ms \<noteq> [] \<Longrightarrow> foldl merge_step acc ms \<noteq> []"
  by (induction ms arbitrary: acc) (auto simp: merge_step_nonempty)

lemma mergeRuns_content:
  "\<forall>m\<in>set ms. content m \<noteq> [] \<Longrightarrow> \<forall>t\<in>set (mergeRuns ms). content t \<noteq> []"
  unfolding mergeRuns_def by (rule foldl_merge_step_content) auto

lemma mergeRuns_nonempty: "ms \<noteq> [] \<Longrightarrow> mergeRuns ms \<noteq> []"
  unfolding mergeRuns_def by (rule foldl_merge_step_nonempty) simp

lemma rule1_nonempty: "ts \<noteq> [] \<Longrightarrow> rule1 ts \<noteq> []"
  by (cases ts) (simp_all add: rule1_def)

lemma rule1_content: "\<forall>t\<in>set ts. content t \<noteq> [] \<Longrightarrow> \<forall>t\<in>set (rule1 ts). content t \<noteq> []"
  by (cases ts) (simp_all add: rule1_def)

lemma rule2_nonempty: "ts \<noteq> [] \<Longrightarrow> rule2 ts \<noteq> []"
  by (simp add: rule2_def Let_def)

lemma rule2_content:
  assumes "\<forall>t\<in>set ts. content t \<noteq> []"
  shows "\<forall>t\<in>set (rule2 ts). content t \<noteq> []"
proof -
  have "set (butlast (butlast ts)) \<subseteq> set ts"
    by (auto dest!: in_set_butlastD)
  with assms show ?thesis by (auto simp: rule2_def Let_def)
qed

lemma chatMessages_nonempty: "\<exists>m\<in>set h. sender m \<noteq> SSystem \<Longrightarrow> chatMessages h \<noteq> []"
  by (auto simp: chatMessages_def filter_empty_conv)

lemma mapHistory_content: "\<forall>t\<in>set (mapHistory h p). content t \<noteq> []"
proof -
  let ?mapped = "map (mapMessage p) (finalMessages h)"
  have "\<forall>m\<in>set ?mapped. content m \<noteq> []" by (simp add: content_mapMessage)
  then have m: "\<forall>t\<in>set (mergeRuns ?mapped). content t \<noteq> []" by (rule mergeRuns_content)
  then have "\<forall>t\<in>set (rule2 (rule1 (mergeRuns ?mapped))). content t \<noteq> []"
    by (intro rule2_content rule1_content)
  with m show ?thesis by (simp add: mapHistory_def Let_def)
qed

lemma mapHistory_nonempty:
  assumes "\<exists>m\<in>set h. sender m \<noteq> SSystem"
  shows "mapHistory h p \<noteq> []"
proof -
  from assms have h: "h \<noteq> []" by auto
  let ?mapped = "map (mapMessage p) (finalMessages h)"
  have "?mapped \<noteq> []"
    using assms by (simp add: finalMessages_nonempty chatMessages_nonempty)
  then have m: "mergeRuns ?mapped \<noteq> []" by (rule mergeRuns_nonempty)
  then have "rule2 (rule1 (mergeRuns ?mapped)) \<noteq> []"
    by (intro rule2_nonempty rule1_nonempty)
  with m h show ?thesis by (cases "p = Gemini") (simp_all add: mapHistory_def Let_def)
qed

text \<open>
  Claim C4, as stated, fails: a history that is not empty but holds system messages only
  is filtered to nothing, and mapHistory returns the empty sequence.
\<close>

theorem C4_counterexample:
  "[system_only] \<noteq> [] \<and> mapHistory [system_only] OpenAI = []
   \<and> mapHistory [system_only] DeepSeek = [] \<and> mapHistory [system_only] Gemini = []"
  by code_simp

text \<open>
  Claim C4, amended. For every history that holds at least one message whose sender is not
  the system, and every provider kind, mapHistory returns a non-empty turn sequence; and
  for every history and provider kind, every turn of the output has non-empty content.
\<close>

theorem C4_nonempty_output:
  "((\<exists>m\<in>set h. sender m \<noteq> SSystem) \<longrightarrow> mapHistory h p \<noteq> [])
   \<and> (\<forall>t\<in>set (mapHistory h p). content t \<noteq> [])"
  using mapHistory_nonempty mapHistory_content by blast

theorem C4_nonempty_output_witness:
  "(\<exists>m\<in>set [system_only, user_second]. sender m \<noteq> SSystem)
   \<and> mapHistory [system_only, user_second] Gemini \<noteq> []
   \<and> list_all (\<lambda>t. content t \<noteq> []) (mapHistory [system_only, user_second] Gemini)"
proof -
  have "\<exists>m\<in>set [system_only, user_second]. sender m \<noteq> SSystem"
    by (simp add: user_second_def)
  then show ?thesis
    using C4_nonempty_output [of "[system_only, user_second]" Gemini]
    unfolding list_all_iff by blast
qed

section \<open>Role repair for the REST providers\<close>

lemma map_role_merge_step:
  "map role (merge_step acc m) =
     (if acc \<noteq> [] \<and> last (map role acc) = role m then map role acc else map role acc @ [role m])"
proof (cases "acc = []")
  case True
  then show ?thesis by (simp add: merge_step_def)
next
  case False
  then have "map role (butlast acc) @ [role (last acc)] = map role acc"
    by (metis append_butlast_last_id list.simps(8,9) map_append)
  with False show ?thesis by (auto simp: merge_step_def last_map)
qed

lemma foldl_merge_step_roles:
  assumes "distinct_adj (map role acc)" "set (map role acc) \<subseteq> R" "role ` set ms \<subseteq> R"
  shows "distinct_adj (map role (foldl merge_step acc ms))
         \<and> set (map role (foldl merge_step acc ms)) \<subseteq> R"
  using assms
proof (induction ms arbitrary: acc)
  case Nil
  then show ?case by simp
next
  case (Cons m ms)
  have "distinct_adj (map role (merge_step acc m))"
    using Cons.prems(1) by (auto simp: map_role_merge_step distinct_adj_append_iff)
  moreover have "set (map role (merge_step acc m)) \<subseteq> R"
    using Cons.prems(2,3) by (auto simp: map_role_merge_step)
  ultimately show ?case using Cons.IH [of "merge_step acc m"] Cons.prems(3) by simp
qed

lemma mergeRuns_roles:
  "role ` set ms \<subseteq> R \<Longrightarrow>
   distinct_adj (map role (mergeRuns ms)) \<and> set (map role (mergeRuns ms)) \<subseteq> R"
  unfolding mergeRuns_def by (rule foldl_merge_step_roles) auto

lemma roles_rule1:
  "ts \<noteq> [] \<Longrightarrow> set (map role ts) \<subseteq> {RUser, RAssistant} \<Longrightarrow>
   map role (rule1 ts) = RUser # tl (map role ts)"
  by (cases ts) (auto simp: rule1_def)

lemma roles_rule2:
  "map role (rule2 ts) =
     (if length ts > 1 \<and> last (map role ts) = RAssistant then butlast (map role ts)
      else if length ts = 1 \<and> hd (map role ts) = RAssistant then [RUser]
      else map role ts)"
proof (cases "length ts > 1 \<and> role (last ts) = RAssistant")
  case True
  then have ne: "ts \<noteq> []" "butlast ts \<noteq> []"
    by (auto simp: butlast_conv_take)
  then have "map role (butlast (butlast ts)) @ [role (last (butlast ts))] = map role (butlast ts)"
    by (metis append_butlast_last_id list.simps(8,9) map_append)
  with True ne show ?thesis
    by (simp add: rule2_def Let_def last_map map_butlast)
next
  case False
  then show ?thesis
    by (cases ts) (auto simp: rule2_def last_map hd_map)
qed

text \<open>The role lists that the two rules leave, seen on the roles alone.\<close>

lemma repaired_roles_ends:
  assumes d: "distinct_adj rs" and s: "set rs \<subseteq> {RUser, RAssistant}" and ne: "rs \<noteq> []"
  defines "rs1 \<equiv> RUser # tl rs"
  defines "out \<equiv> (if length rs1 > 1 \<and> last rs1 = RAssistant then butlast rs1
                   else if length rs1 = 1 \<and> hd rs1 = RAssistant then [RUser] else rs1)"
  shows "out \<noteq> [] \<and> hd out = RUser \<and> last out = RUser"
proof (cases "length rs1 > 1 \<and> last rs1 = RAssistant")
  case False
  have "set rs1 \<subseteq> {RUser, RAssistant}"
    using s ne unfolding rs1_def by (cases rs) auto
  then have "last rs1 \<in> {RUser, RAssistant}"
    unfolding rs1_def by (metis last_in_set list.distinct(1) subsetD)
  with False have "last rs1 = RUser"
    unfolding rs1_def by (cases "tl rs") auto
  with False show ?thesis unfolding out_def rs1_def by simp
next
  case True
  then obtain y ys where tl: "tl rs = ys @ [y]"
    unfolding rs1_def by (cases "tl rs" rule: rev_cases) auto
  with True have y: "y = RAssistant" unfolding rs1_def by simp
  have out: "out = RUser # ys" using True tl unfolding out_def rs1_def by simp
  show ?thesis
  proof (cases ys rule: rev_cases)
    case Nil
    with out show ?thesis by simp
  next
    case (snoc zs z)
    obtain x where rs: "rs = x # zs @ [z, y]"
      using ne tl snoc by (cases rs) auto
    from d rs have "z \<noteq> y"
      by (simp add: distinct_adj_Cons distinct_adj_append_iff split: list.splits)
    moreover from s rs have "z \<in> {RUser, RAssistant}" by auto
    ultimately have "z = RUser" using y by auto
    with out snoc show ?thesis by simp
  qed
qed

lemma mapRole_rest: "p \<noteq> Gemini \<Longrightarrow> role (mapMessage p m) \<in> {RUser, RAssistant}"
  by (simp add: mapMessage_def mapRole_def)

text \<open>For openai and deepseek, an output that is not empty begins with a user turn and
  ends with a user turn.\<close>

lemma mapHistory_rest_ends:
  assumes p: "p \<noteq> Gemini" and ne: "mapHistory h p \<noteq> []"
  shows "role (hd (mapHistory h p)) = RUser \<and> role (last (mapHistory h p)) = RUser"
proof -
  let ?s = "mergeRuns (map (mapMessage p) (finalMessages h))"
  have mh: "mapHistory h p = rule2 (rule1 ?s)" and hne: "h \<noteq> []"
    using p ne by (auto simp: mapHistory_def Let_def split: if_splits)
  have "role ` set (map (mapMessage p) (finalMessages h)) \<subseteq> {RUser, RAssistant}"
    using p by (auto simp: mapMessage_def mapRole_def)
  then have d: "distinct_adj (map role ?s)" and s: "set (map role ?s) \<subseteq> {RUser, RAssistant}"
    using mergeRuns_roles [of "map (mapMessage p) (finalMessages h)" "{RUser, RAssistant}"]
    by simp_all
  have sne: "?s \<noteq> []"
  proof
    assume "?s = []"
    then have "rule2 (rule1 ?s) = []" by (simp add: rule1_def rule2_def)
    with mh ne show False by simp
  qed
  then have r1: "map role (rule1 ?s) = RUser # tl (map role ?s)"
    using s by (rule roles_rule1)
  have len: "length (rule1 ?s) = length (RUser # tl (map role ?s))"
    using r1 by (metis length_map)
  have "map role (mapHistory h p)
        = (if length (RUser # tl (map role ?s)) > 1 \<and> last (RUser # tl (map role ?s)) = RAssistant
           then butlast (RUser # tl (map role ?s))
           else if length (RUser # tl (map role ?s)) = 1 \<and> hd (RUser # tl (map role ?s)) = RAssistant
           then [RUser] else RUser # tl (map role ?s))"
    unfolding mh roles_rule2 r1 len ..
  moreover have "map role ?s \<noteq> []" using sne by simp
  ultimately have "map role (mapHistory h p) \<noteq> [] \<and> hd (map role (mapHistory h p)) = RUser
                   \<and> last (map role (mapHistory h p)) = RUser"
    using repaired_roles_ends [OF d s] by simp
  then show ?thesis using ne by (simp add: hd_map last_map)
qed


lemma alternates_distinct_adj:
  "distinct_adj rs \<Longrightarrow> set rs \<subseteq> {RUser, RAssistant} \<Longrightarrow> rs \<noteq> [] \<Longrightarrow> alternates (hd rs) rs"
proof (induction rs)
  case Nil
  then show ?case by simp
next
  case (Cons x xs)
  show ?case
  proof (cases xs)
    case Nil
    then show ?thesis by simp
  next
    case (Cons y ys)
    with Cons.prems have "y \<noteq> x" "x \<in> {RUser, RAssistant}" "y \<in> {RUser, RAssistant}"
      by auto
    then have "(if x = RUser then RAssistant else RUser) = hd xs"
      using Cons by auto
    moreover have "alternates (hd xs) xs"
      using Cons.prems Cons by (intro Cons.IH) auto
    ultimately show ?thesis by simp
  qed
qed

lemma alternates_butlast: "alternates r rs \<Longrightarrow> alternates r (butlast rs)"
  by (induction rs arbitrary: r) auto

lemma hd_roles_foldl_merge_step:
  "acc \<noteq> [] \<Longrightarrow> hd (map role (foldl merge_step acc ms)) = hd (map role acc)"
proof (induction ms arbitrary: acc)
  case Nil
  then show ?case by simp
next
  case (Cons m ms)
  have "hd (map role (merge_step acc m)) = hd (map role acc)"
    using Cons.prems by (simp add: map_role_merge_step)
  moreover have "merge_step acc m \<noteq> []" by (simp add: merge_step_def)
  ultimately show ?case using Cons.IH [of "merge_step acc m"] by simp
qed

lemma hd_roles_mergeRuns: "hd (map role (mergeRuns (m # ms))) = role m"
  using hd_roles_foldl_merge_step [of "merge_step [] m" ms]
  by (simp add: mergeRuns_def merge_step_def)

lemma finalMessages_Nil: "finalMessages [] = []"
  by (simp add: finalMessages_def chatMessages_def slice_last_def)

text \<open>When the first message of the window is a user message, rule 1 changes nothing and
  the output alternates strictly.\<close>

lemma mapHistory_rest_alternates:
  assumes p: "p \<noteq> Gemini" and ne: "finalMessages h \<noteq> []"
    and u: "sender (hd (finalMessages h)) = SUser"
  shows "strict_alternation (map role (mapHistory h p))"
proof -
  let ?mapped = "map (mapMessage p) (finalMessages h)"
  let ?s = "mergeRuns ?mapped"
  let ?rs = "map role ?s"
  have hne: "h \<noteq> []" using ne finalMessages_Nil by auto
  then have mh: "mapHistory h p = rule2 (rule1 ?s)"
    using p by (simp add: mapHistory_def Let_def)
  obtain m ms where fm: "finalMessages h = m # ms" using ne by (cases "finalMessages h") auto
  have "role ` set ?mapped \<subseteq> {RUser, RAssistant}"
    using p by (auto simp: mapMessage_def mapRole_def)
  then have d: "distinct_adj ?rs" and s: "set ?rs \<subseteq> {RUser, RAssistant}"
    using mergeRuns_roles [of ?mapped "{RUser, RAssistant}"] by simp_all
  have sne: "?s \<noteq> []"
    using ne by (intro mergeRuns_nonempty) simp
  have hd: "hd ?rs = RUser"
    using u p unfolding fm by (simp add: hd_roles_mergeRuns mapMessage_def mapRole_def)
  have rne: "?rs \<noteq> []" using sne by simp
  have alt: "alternates RUser ?rs"
    using alternates_distinct_adj [OF d s rne] hd by simp
  have r1: "map role (rule1 ?s) = ?rs"
    using roles_rule1 [OF sne s] hd rne by (metis list.collapse)
  have len: "length (rule1 ?s) = length ?rs" using r1 by (metis length_map)
  have out: "map role (mapHistory h p)
             = (if length ?rs > 1 \<and> last ?rs = RAssistant then butlast ?rs
                else if length ?rs = 1 \<and> hd ?rs = RAssistant then [RUser] else ?rs)"
    unfolding mh roles_rule2 r1 len ..
  have "alternates RUser (map role (mapHistory h p))"
    using alt hd unfolding out by (simp add: alternates_butlast)
  moreover have "mapHistory h p \<noteq> []"
    unfolding mh by (intro rule2_nonempty rule1_nonempty sne)
  then have "last (map role (mapHistory h p)) = RUser"
    using mapHistory_rest_ends [OF p] by (simp add: last_map)
  ultimately show ?thesis by (simp add: strict_alternation_def)
qed

text \<open>
  Claim C1. The claim is that the output for openai or deepseek strictly alternates
  user, assistant, user, ... from a user turn to a user turn. On the history of an
  assistant message followed by a user message, rule 1 turns the leading assistant turn
  into a user turn in place, next to the user turn that follows it: the output is two
  user turns in a row. What holds is \<open>mapHistory_rest_ends\<close> for every history, and
  the alternation for the windows that begin with a user message
  (\<open>mapHistory_rest_alternates\<close>).
\<close>

theorem C1_alternation_broken:
  "map role (mapHistory [ai_first, user_second] OpenAI) = [RUser, RUser]
   \<and> map role (mapHistory [ai_first, user_second] DeepSeek) = [RUser, RUser]
   \<and> \<not> strict_alternation (map role (mapHistory [ai_first, user_second] OpenAI))
   \<and> \<not> strict_alternation (map role (mapHistory [ai_first, user_second] DeepSeek))"
  by code_simp

text \<open>
  Claim C2. The claim is that the history of the single assistant message of author Bot
  and text hi becomes one user turn whose content contains DIALOGUE CONTEXT and hi. Rule 1
  has already turned the assistant turn into a user turn, under the heading PREVIOUS
  CONTEXT, before the branch of rule 2 for a single assistant turn is reached: the output
  is one user turn that contains hi and does not contain DIALOGUE CONTEXT.
\<close>

theorem C2_single_assistant_message:
  "mapHistory [bot_hi] OpenAI
     = [\<lparr> role = RUser,
           content = ''[PREVIOUS CONTEXT]:'' @ newline @ ''--- SOURCE: BOT ---'' @ newline
                     @ ''hi'' @ newline @ ''--- END BOT ---'' \<rparr>]
   \<and> mapHistory [bot_hi] DeepSeek = mapHistory [bot_hi] OpenAI
   \<and> includes_str (content (hd (mapHistory [bot_hi] OpenAI))) ''hi''
   \<and> includes_str (content (hd (mapHistory [bot_hi] OpenAI))) ''PREVIOUS CONTEXT''
   \<and> \<not> includes_str (content (hd (mapHistory [bot_hi] OpenAI))) ''DIALOGUE CONTEXT''"
  by code_simp

section \<open>Response cleaning\<close>

text \<open>On the text that mapMessage builds for a message, both tag lines are removed.\<close>

lemma cleanResponse_tagged_example: "cleanResponse tagged_hello = ''hello''"
  by code_simp

text \<open>
  The replacements run once over the text, and removing one match can put together a new
  one: in \<open>glued_tag\<close> the END line stands between a hyphen and a line that begins with
  SOURCE:, and once it is removed the pattern for SOURCE: matches all that is left.
\<close>

lemma cleanResponse_glued_example:
  "cleanResponse glued_tag = ''-'' @ newline @ newline @ ''SOURCE: x-''
   \<and> cleanResponse (cleanResponse glued_tag) = []"
  by code_simp

text \<open>
  Claim C3. The claim is that cleanResponse is idempotent and that its result holds no
  line that starts with hyphens, goes on with SOURCE: or END and ends with hyphens. The
  code replaces first and trims last. A SOURCE line that follows white space at the start
  of the text does not begin at a line start, so no replacement removes it; the trim then
  takes the white space away, and the result begins with the tag line: it is the whole
  result for \<open>spaced_tag\<close>, and the first line of the result for \<open>spaced_reply\<close>.
  The pattern for SOURCE: matches at the start of either result, and a second call removes
  the line, so the two calls differ.
\<close>

theorem C3_tag_line_survives:
  "cleanResponse spaced_tag = ''--- SOURCE: BOT ---''
   \<and> match_len ''SOURCE:'' (cleanResponse spaced_tag) = Some 19
   \<and> cleanResponse (cleanResponse spaced_tag) = []
   \<and> cleanResponse (cleanResponse spaced_tag) \<noteq> cleanResponse spaced_tag
   \<and> cleanResponse spaced_reply = ''--- SOURCE: BOT ---'' @ newline @ ''Hello''
   \<and> match_len ''SOURCE:'' (cleanResponse spaced_reply) = Some 19
   \<and> cleanResponse (cleanResponse spaced_reply) = ''Hello''
   \<and> cleanResponse (cleanResponse spaced_reply) \<noteq> cleanResponse spaced_reply"
  by code_simp

section \<open>Provider gateway\<close>

lemma fetch_count_simps [simp]:
  "fetch_count [] = 0"
  "fetch_count (tr @ [Fetch q]) = Suc (fetch_count tr)"
  "fetch_count (tr @ [Sleep n]) = fetch_count tr"
  "fetch_count (tr @ [GenerateContent g]) = fetch_count tr"
  by (simp_all add: fetch_count_def)

text \<open>A call that may not retry makes at most one request.\<close>

lemma getAIResponse_no_retry:
  assumes "1 \<le> r"
  shows "fetch_count (snd (getAIResponse e net sdk p mn sp h k t r tr)) \<le> Suc (fetch_count tr)"
  using assms
  by (subst getAIResponse.simps)
     (auto simp: Let_def split: FetchOutcome.splits Body.splits GenOutcome.splits)

lemma getAIResponse_two_requests:
  "fetch_count (snd (getAIResponse e net sdk p mn sp h k t 0 tr)) \<le> fetch_count tr + 2"
proof -
  have "fetch_count (snd (getAIResponse e net sdk p mn sp h k t 1 (tr @ [Fetch q, Sleep 2000])))
          \<le> fetch_count tr + 2" for q
    using getAIResponse_no_retry [of 1 e net sdk p mn sp h k t "tr @ [Fetch q, Sleep 2000]"]
      fetch_count_simps(2) [of tr q] fetch_count_simps(3) [of "tr @ [Fetch q]" 2000]
    by simp
  then show ?thesis
    by (subst getAIResponse.simps)
       (auto simp: Let_def split: FetchOutcome.splits Body.splits GenOutcome.splits)
qed

lemma getAIResponse_429_retry:
  assumes "p \<noteq> Gemini" "k \<noteq> []" "r < 1"
    and "net (fetch_count tr) = Response 429 (JsonValue em cc)"
  shows "getAIResponse e net sdk p mn sp h k t r tr
         = getAIResponse e net sdk p mn sp h k t (r + 1)
             (tr @ [Fetch (rest_request p mn sp h k (min (max t 0) 1.2)), Sleep 2000])"
  using assms
  by (subst getAIResponse.simps) (simp add: Let_def res_ok_def)

lemma getAIResponse_429_final:
  assumes "p \<noteq> Gemini" "k \<noteq> []" "1 \<le> r"
    and "net (fetch_count tr) = Response 429 (JsonValue em cc)"
  shows "getAIResponse e net sdk p mn sp h k t r tr
         = (Inl (ProviderError p (or_else em (''Error '' @ show_nat 429))),
            tr @ [Fetch (rest_request p mn sp h k (min (max t 0) 1.2))])"
  using assms
  by (subst getAIResponse.simps) (simp add: Let_def res_ok_def)

lemma getAIResponse_401:
  assumes "p \<noteq> Gemini" "k \<noteq> []"
    and "net (fetch_count tr) = Response 401 body" "parses body"
  shows "getAIResponse e net sdk p mn sp h k t r tr
         = (Inl (AuthenticationFailed p), tr @ [Fetch (rest_request p mn sp h k (min (max t 0) 1.2))])"
  using assms
  by (subst getAIResponse.simps) (auto simp: Let_def res_ok_def split: Body.splits)

lemma getAIResponse_not_json:
  assumes "p \<noteq> Gemini" "k \<noteq> []"
    and "net (fetch_count tr) = Response status (NotJson msg)"
  shows "getAIResponse e net sdk p mn sp h k t r tr
         = (Inl (Thrown msg), tr @ [Fetch (rest_request p mn sp h k (min (max t 0) 1.2))])"
  using assms
  by (subst getAIResponse.simps) (simp add: Let_def)

lemma getAIResponse_key_missing:
  assumes "p \<noteq> Gemini"
  shows "getAIResponse e net sdk p mn sp h [] t r tr = (Inl (ApiKeyMissing p), tr)"
  using assms by (subst getAIResponse.simps) (simp add: Let_def)

lemma getAIResponse_env_rest:
  "p \<noteq> Gemini \<Longrightarrow>
   getAIResponse e1 net sdk p mn sp h k t r tr = getAIResponse e2 net sdk p mn sp h k t r tr"
proof (induction e1 net sdk p mn sp h k t r tr rule: getAIResponse.induct)
  case (1 e1 net sdk p mn sp h k t r tr)
  show ?case
    apply (subst getAIResponse.simps)
    apply (subst (2) getAIResponse.simps)
    using 1
    apply (auto simp: Let_def split: FetchOutcome.splits Body.splits)
    done
qed

lemma getAIResponse_gemini_key:
  "getAIResponse e net sdk Gemini mn sp h k1 t r tr = getAIResponse e net sdk Gemini mn sp h k2 t r tr"
  by (subst getAIResponse.simps, subst (2) getAIResponse.simps) (simp add: Let_def)

lemma getAIResponse_gemini_trace:
  "snd (getAIResponse e net sdk Gemini mn sp h k t r tr)
   = tr @ [GenerateContent (gemini_request e mn sp h (min (max t 0) 1.2))]"
  by (subst getAIResponse.simps) (simp add: Let_def split: GenOutcome.splits)

lemma show_nat_429: "show_nat 429 = ''429''"
  by code_simp

text \<open>
  Claim C6, as stated, fails: the body of the response is parsed before the status is
  looked at, so a 429 response whose body is not JSON makes \<^verbatim>\<open>res.json()\<close> reject, and
  that error is thrown after one request, with no delay and no second request.
\<close>

theorem C6_counterexample:
  "rate_limited_html 0 = Response 429 (NotJson ''Unexpected token < in JSON at position 0'')
   \<and> getAIResponse None rate_limited_html sdk_hello OpenAI ''gpt-4o'' ''Be brief.'' [user_second]
        ''sk-test'' 0.7 0 []
      = (Inl (Thrown ''Unexpected token < in JSON at position 0''),
         [Fetch (rest_request OpenAI ''gpt-4o'' ''Be brief.'' [user_second] ''sk-test''
                   (min (max 0.7 0) 1.2))])"
proof -
  have a: "rate_limited_html (fetch_count [])
           = Response 429 (NotJson ''Unexpected token < in JSON at position 0'')"
    by (simp add: rate_limited_html_def)
  show ?thesis
    using getAIResponse_not_json [where net = rate_limited_html and tr = "[]" and p = OpenAI
            and k = "''sk-test''" and status = 429
            and msg = "''Unexpected token < in JSON at position 0''"] a
    by simp
qed

text \<open>
  Claim C6, amended. For openai or deepseek with an API key, in a call with the retry
  counter at its default 0: a 429 response whose body parses to a JSON value other than
  null makes getAIResponse call itself once more with the counter at 1, after the request
  and a delay of 2000 ms; whatever the network answers, the call makes at most two
  requests; a 429 answer to the second request is thrown as a provider error, after
  request, delay, request. A 401 response whose body parses as JSON is thrown as an
  authentication failure after that one request, whatever the counter: there is no delay
  and no further request.
\<close>

theorem C6_retry_once:
  assumes "p \<noteq> Gemini" "k \<noteq> []"
  shows
    "(net 0 = Response 429 (JsonValue em cc) \<longrightarrow>
        getAIResponse e net sdk p mn sp h k t 0 []
        = getAIResponse e net sdk p mn sp h k t 1
            [Fetch (rest_request p mn sp h k (min (max t 0) 1.2)), Sleep 2000])
     \<and> fetch_count (snd (getAIResponse e net sdk p mn sp h k t 0 [])) \<le> 2
     \<and> (net 0 = Response 429 (JsonValue em cc) \<and> net 1 = Response 429 (JsonValue em' cc') \<longrightarrow>
        getAIResponse e net sdk p mn sp h k t 0 []
        = (Inl (ProviderError p (or_else em' ''Error 429'')),
           [Fetch (rest_request p mn sp h k (min (max t 0) 1.2)), Sleep 2000,
            Fetch (rest_request p mn sp h k (min (max t 0) 1.2))]))
     \<and> (net (fetch_count tr) = Response 401 body \<and> parses body \<longrightarrow>
        getAIResponse e net sdk p mn sp h k t r tr
        = (Inl (AuthenticationFailed p),
           tr @ [Fetch (rest_request p mn sp h k (min (max t 0) 1.2))]))"
proof -
  let ?q = "rest_request p mn sp h k (min (max t 0) 1.2)"
  have first: "getAIResponse e net sdk p mn sp h k t 0 []
               = getAIResponse e net sdk p mn sp h k t 1 [Fetch ?q, Sleep 2000]"
    if "net 0 = Response 429 (JsonValue em cc)"
    using getAIResponse_429_retry [where net = net and tr = "[]" and p = p and k = k and r = 0
            and em = em and cc = cc] assms that
    by simp
  have second: "getAIResponse e net sdk p mn sp h k t 1 [Fetch ?q, Sleep 2000]
                = (Inl (ProviderError p (or_else em' ''Error 429'')), [Fetch ?q, Sleep 2000, Fetch ?q])"
    if "net 1 = Response 429 (JsonValue em' cc')"
  proof -
    have "fetch_count [Fetch ?q, Sleep 2000] = 1" by (simp add: fetch_count_def)
    then show ?thesis
      using getAIResponse_429_final [where net = net and tr = "[Fetch ?q, Sleep 2000]" and p = p
              and k = k and r = 1 and em = em' and cc = cc'] assms that
      by (simp add: show_nat_429)
  qed
  have two: "fetch_count (snd (getAIResponse e net sdk p mn sp h k t 0 [])) \<le> 2"
    using getAIResponse_two_requests [where tr = "[]" and net = net and e = e and sdk = sdk
            and p = p and mn = mn and sp = sp and h = h and k = k and t = t] by simp
  have auth: "getAIResponse e net sdk p mn sp h k t r tr = (Inl (AuthenticationFailed p), tr @ [Fetch ?q])"
    if "net (fetch_count tr) = Response 401 body" "parses body"
    using getAIResponse_401 [where net = net and tr = tr and body = body and p = p and k = k]
      assms that by simp
  from first second two auth show ?thesis by simp
qed

theorem C6_retry_once_witness:
  "OpenAI \<noteq> Gemini \<and> ''sk-test'' \<noteq> []
   \<and> rate_limited 0 = Response 429 (JsonValue (Some ''Rate limit reached'') None)
   \<and> rate_limited 1 = Response 429 (JsonValue (Some ''Rate limit reached'') None)
   \<and> unauthorized (fetch_count []) = Response 401 (JsonValue (Some ''Incorrect API key provided'') None)
   \<and> parses (JsonValue (Some ''Incorrect API key provided'') None)
   \<and> getAIResponse None rate_limited sdk_hello OpenAI ''gpt-4o'' ''Be brief.'' [user_second]
        ''sk-test'' 0.7 0 []
      = (Inl (ProviderError OpenAI ''Rate limit reached''),
         [Fetch (rest_request OpenAI ''gpt-4o'' ''Be brief.'' [user_second] ''sk-test'' (min (max 0.7 0) 1.2)),
          Sleep 2000,
          Fetch (rest_request OpenAI ''gpt-4o'' ''Be brief.'' [user_second] ''sk-test'' (min (max 0.7 0) 1.2))])
   \<and> getAIResponse None unauthorized sdk_hello OpenAI ''gpt-4o'' ''Be brief.'' [user_second]
        ''sk-test'' 0.7 0 []
      = (Inl (AuthenticationFailed OpenAI),
         [Fetch (rest_request OpenAI ''gpt-4o'' ''Be brief.'' [user_second] ''sk-test'' (min (max 0.7 0) 1.2))])"
proof -
  have p: "OpenAI \<noteq> Gemini" and k: "''sk-test'' \<noteq> []" by simp_all
  have a: "rate_limited 0 = Response 429 (JsonValue (Some ''Rate limit reached'') None)"
    and b: "rate_limited 1 = Response 429 (JsonValue (Some ''Rate limit reached'') None)"
    by (simp_all add: rate_limited_def)
  have c: "unauthorized (fetch_count []) = Response 401 (JsonValue (Some ''Incorrect API key provided'') None)"
    by (simp add: unauthorized_def)
  have d: "parses (JsonValue (Some ''Incorrect API key provided'') None)" by simp
  have e: "or_else (Some ''Rate limit reached'') ''Error 429'' = ''Rate limit reached''"
    by (simp add: or_else_def)
  note retry = C6_retry_once [OF p k, where net = rate_limited and em = "Some ''Rate limit reached''"
            and cc = None and em' = "Some ''Rate limit reached''" and cc' = None and e = None
            and sdk = sdk_hello and mn = "''gpt-4o''" and sp = "''Be brief.''"
            and h = "[user_second]" and t = "0.7"]
  note auth = C6_retry_once [OF p k, where net = unauthorized and tr = "[]"
            and body = "JsonValue (Some ''Incorrect API key provided'') None" and e = None
            and sdk = sdk_hello and mn = "''gpt-4o''" and sp = "''Be brief.''"
            and h = "[user_second]" and t = "0.7" and r = 0]
  have w1: "getAIResponse None rate_limited sdk_hello OpenAI ''gpt-4o'' ''Be brief.'' [user_second]
        ''sk-test'' 0.7 0 []
      = (Inl (ProviderError OpenAI ''Rate limit reached''),
         [Fetch (rest_request OpenAI ''gpt-4o'' ''Be brief.'' [user_second] ''sk-test'' (min (max 0.7 0) 1.2)),
          Sleep 2000,
          Fetch (rest_request OpenAI ''gpt-4o'' ''Be brief.'' [user_second] ''sk-test'' (min (max 0.7 0) 1.2))])"
    using retry [THEN conjunct2, THEN conjunct2, THEN conjunct1] a b e by simp
  have w2: "getAIResponse None unauthorized sdk_hello OpenAI ''gpt-4o'' ''Be brief.'' [user_second]
        ''sk-test'' 0.7 0 []
      = (Inl (AuthenticationFailed OpenAI),
         [Fetch (rest_request OpenAI ''gpt-4o'' ''Be brief.'' [user_second] ''sk-test'' (min (max 0.7 0) 1.2))])"
    using auth [THEN conjunct2, THEN conjunct2, THEN conjunct2] c d by simp
  from p k a b c d w1 w2 show ?thesis by blast
qed

text \<open>
  Claim C9, as stated, fails for the Gemini provider: getAIResponse builds the SDK client
  from \<^verbatim>\<open>process.env.API_KEY\<close>, so with all arguments fixed, two environments give two
  different calls of the SDK.
\<close>

theorem C9_counterexample:
  "getAIResponse (Some ''env-key-1'') rate_limited sdk_hello Gemini ''gemini-3-flash-preview''
       ''Be brief.'' [user_second] [] 0.7 0 []
   \<noteq> getAIResponse (Some ''env-key-2'') rate_limited sdk_hello Gemini ''gemini-3-flash-preview''
       ''Be brief.'' [user_second] [] 0.7 0 []"
proof
  assume "getAIResponse (Some ''env-key-1'') rate_limited sdk_hello Gemini ''gemini-3-flash-preview''
       ''Be brief.'' [user_second] [] 0.7 0 []
   = getAIResponse (Some ''env-key-2'') rate_limited sdk_hello Gemini ''gemini-3-flash-preview''
       ''Be brief.'' [user_second] [] 0.7 0 []"
  then have "snd (getAIResponse (Some ''env-key-1'') rate_limited sdk_hello Gemini
                ''gemini-3-flash-preview'' ''Be brief.'' [user_second] [] 0.7 0 [])
             = snd (getAIResponse (Some ''env-key-2'') rate_limited sdk_hello Gemini
                ''gemini-3-flash-preview'' ''Be brief.'' [user_second] [] 0.7 0 [])"
    by simp
  then have "gen_apiKey (gemini_request (Some ''env-key-1'') ''gemini-3-flash-preview''
                 ''Be brief.'' [user_second] (min (max 0.7 0) 1.2))
             = gen_apiKey (gemini_request (Some ''env-key-2'') ''gemini-3-flash-preview''
                 ''Be brief.'' [user_second] (min (max 0.7 0) 1.2))"
    by (simp only: getAIResponse_gemini_trace append_Nil list.inject Event.inject)
  then show False by (simp add: gemini_request_def or_else_def)
qed

text \<open>
  Claim C9, amended. For openai and deepseek, with the explicit arguments fixed, the
  result and the trace of getAIResponse do not depend on \<^verbatim>\<open>process.env.API_KEY\<close>. For
  Gemini the credential is read from \<^verbatim>\<open>process.env.API_KEY\<close> (the one call of the SDK
  carries that value, or the empty string when it is unset), and the apiKey argument is
  not used.
\<close>

theorem C9_environment:
  "(p \<noteq> Gemini \<longrightarrow>
      getAIResponse e1 net sdk p mn sp h k t r tr = getAIResponse e2 net sdk p mn sp h k t r tr)
   \<and> snd (getAIResponse e net sdk Gemini mn sp h k t r tr)
       = tr @ [GenerateContent (gemini_request e mn sp h (min (max t 0) 1.2))]
   \<and> gen_apiKey (gemini_request e mn sp h (min (max t 0) 1.2)) = or_else e []
   \<and> getAIResponse e net sdk Gemini mn sp h k t r tr
       = getAIResponse e net sdk Gemini mn sp h k' t r tr"
  using getAIResponse_env_rest [where p = p and ?e1.0 = e1 and ?e2.0 = e2 and net = net and sdk = sdk
          and mn = mn and sp = sp and h = h and k = k and t = t and r = r and tr = tr]
    getAIResponse_gemini_trace [where e = e and net = net and sdk = sdk and mn = mn and sp = sp
          and h = h and k = k and t = t and r = r and tr = tr]
    getAIResponse_gemini_key [where e = e and net = net and sdk = sdk and mn = mn and sp = sp
          and h = h and ?k1.0 = k and ?k2.0 = k' and t = t and r = r and tr = tr]
  by (simp add: gemini_request_def)

theorem C9_environment_witness:
  "DeepSeek \<noteq> Gemini
   \<and> getAIResponse None unauthorized sdk_hello DeepSeek ''deepseek-chat'' ''Be brief.''
        [user_second] ''sk-test'' 0.7 0 []
     = getAIResponse (Some ''env-key-1'') unauthorized sdk_hello DeepSeek ''deepseek-chat''
        ''Be brief.'' [user_second] ''sk-test'' 0.7 0 []"
  using C9_environment [where p = DeepSeek and ?e1.0 = None and ?e2.0 = "Some ''env-key-1''"
          and net = unauthorized and sdk = sdk_hello and mn = "''deepseek-chat''"
          and sp = "''Be brief.''" and h = "[user_second]" and k = "''sk-test''" and t = "0.7"
          and r = 0 and tr = "[]"]
  by simp

section \<open>Orchestration\<close>

lemma set_messages_frame:
  "filter (\<lambda>c. chat_id c \<noteq> chatId) (set_messages chatId ms lt now k cs)
   = filter (\<lambda>c. chat_id c \<noteq> chatId) cs"
  by (induction cs arbitrary: k) simp_all

lemma chatBase_of_draft:
  "isDraft cl chatId \<Longrightarrow> chatBase_of cl chatId = Some cb \<Longrightarrow> chat_id cb = chatId"
  by (auto simp: isDraft_def chatBase_of_def split: option.splits)

text \<open>With no key for the responder's REST provider, the gateway is not called: the trace
  is the one before, and the only update sets the messages of the chats with the given
  id to the current messages and one system message with the error flag.\<close>

lemma missing_key_step:
  assumes "chatBase_of cl chatId = Some cb" "targetAssistant_of cl cb sa = Some ta"
    and "provider ta \<noteq> Gemini" "apiKey_of st ta = []"
  shows "triggerAIResponseForChat e net sdk now st cl chatId msgs sa prev tr
         = (prev\<lparr> chats := set_messages chatId
                (msgs @ [\<lparr> msg_id = ''sys-'' @ show_nat (now 0),
                           msg_text = warning_sign @ '' Error: No API key for ''
                                      @ toUpperCase (provider_name (provider ta)) @ ''.'',
                           sender = SSystem, authorId = None, authorName = None,
                           timestamp = now 1, isError = Some True \<rparr>])
                (warning_sign @ '' Error: No API key for ''
                   @ toUpperCase (provider_name (provider ta)) @ ''.'')
                now 2 (chats prev) \<rparr>, tr)"
  using assms by (simp add: triggerAIResponseForChat_def Let_def)

lemma set_messages_listed:
  "map messages (filter (\<lambda>c. chat_id c = chatId) (set_messages chatId ms lt now k cs))
   = map (\<lambda>c. ms) (filter (\<lambda>c. chat_id c = chatId) cs)"
  by (induction cs arbitrary: k) simp_all

lemma set_messages_unlisted:
  "chatId \<notin> chat_id ` set cs \<Longrightarrow> set_messages chatId ms lt now k cs = cs"
  by (induction cs arbitrary: k) auto

text \<open>In the arena of the examples, kept in the list, the missing key of the participant
  adds one message with the error flag after the user's message, and nothing is sent.\<close>

lemma missing_key_listed_example:
  "map (\<lambda>c. map isError (messages c))
     (chats (fst (triggerAIResponseForChat None rate_limited sdk_hello clock no_keys listed_state
                    ''arena-1'' [user_second] (Some ''p1'') listed_state [])))
   = [[None, Some True], [], []]
   \<and> snd (triggerAIResponseForChat None rate_limited sdk_hello clock no_keys listed_state
            ''arena-1'' [user_second] (Some ''p1'') listed_state []) = []"
  by (simp add: triggerAIResponseForChat_def chatBase_of_def isDraft_def targetAssistant_of_def
        truthy_def apiKey_of_def listed_state_def arena_def participant_p1_def
        participant_p2_def no_keys_def user_second_def Let_def)

text \<open>
  Claim C7. The claim is that with no key for the responder's openai or deepseek provider
  no request is made, and that triggerAIResponseForChat adds exactly one system message
  with the error flag to the target conversation. The first part holds
  (\<open>getAIResponse_key_missing\<close>, \<open>missing_key_step\<close>). The second part holds
  for a conversation of the list (\<open>set_messages_listed\<close>,
  \<open>missing_key_listed_example\<close>), and fails for a draft thread:
  the draft is not in the list that the updater maps over, so the state stays as it was
  and the error message is lost, while the success path of the same function does add its
  message to a draft.
\<close>

theorem C7_draft_error_dropped:
  "isDraft draft_state ''branch-1''
   \<and> map_option provider (targetAssistant_of draft_state draft_thread (Some ''p1'')) = Some OpenAI
   \<and> apiKey_of no_keys participant_p1 = []
   \<and> triggerAIResponseForChat None rate_limited sdk_hello clock no_keys draft_state ''branch-1''
        [user_second] (Some ''p1'') draft_state []
      = (draft_state, [])"
  by (simp add: triggerAIResponseForChat_def chatBase_of_def isDraft_def targetAssistant_of_def
        truthy_def apiKey_of_def draft_state_def draft_thread_def arena_def participant_p1_def
        participant_p2_def no_keys_def Let_def)

text \<open>
  Claim C10. On every path of triggerAIResponseForChat (no conversation or no responder,
  missing key, success for a listed conversation or for a draft, failure of the provider),
  the conversations whose id is not the given one are, after the call, the same
  conversations in the same order, each with all its fields.
\<close>

theorem C10_frame:
  "filter (\<lambda>c. chat_id c \<noteq> chatId)
     (chats (fst (triggerAIResponseForChat e net sdk now st cl chatId msgs sa prev tr)))
   = filter (\<lambda>c. chat_id c \<noteq> chatId) (chats prev)"
proof (cases "chatBase_of cl chatId")
  case None
  then show ?thesis by (simp add: triggerAIResponseForChat_def)
next
  case (Some cb)
  show ?thesis
  proof (cases "targetAssistant_of cl cb sa")
    case None
    with Some show ?thesis by (simp add: triggerAIResponseForChat_def)
  next
    case (Some ta)
    have draft: "chat_id cb = chatId" if "isDraft cl chatId"
      using that \<open>chatBase_of cl chatId = Some cb\<close> by (rule chatBase_of_draft)
    show ?thesis
      using Some \<open>chatBase_of cl chatId = Some cb\<close> draft
      by (auto simp: triggerAIResponseForChat_def Let_def set_messages_frame
               split: prod.splits sum.splits)
  qed
qed

section \<open>Turn selection\<close>




lemma responders_messages [simp]:
  "responders (chat\<lparr> messages := ms \<rparr>) allChats = responders chat allChats"
  by (simp add: responders_def participants_def)

lemma aiResponders_messages [simp]:
  "aiResponders (chat\<lparr> messages := ms \<rparr>) allChats = aiResponders chat allChats"
  by (simp add: aiResponders_def)






end
